theory Spec2Isabelle
  imports Main
begin

section \<open>Email service (config/emailService.js)\<close>

subsection \<open>JavaScript values, the environment, promises\<close>

text \<open>
  The arguments of the email functions are JavaScript values. Only the shape that the
  code inspects is kept: the \<open>type\<close> argument of \<open>sendOTPEmail\<close> is compared with string
  literals by a \<open>switch\<close> (strict equality), so a value that is not a string never matches.
\<close>

datatype jsval = JUndefined | JNull | JBool bool | JNum int | JStr string

text \<open>
  \<open>process.env\<close>: a variable is absent or holds a string. \<open>!process.env.X\<close> is true when
  the variable is absent or the empty string; \<open>process.env.X || d\<close> is \<open>d\<close> in those cases.
\<close>

type_synonym env = "string \<rightharpoonup> string"

definition env_truthy :: "env \<Rightarrow> string \<Rightarrow> bool" where
  "env_truthy e k = (case e k of None \<Rightarrow> False | Some v \<Rightarrow> v \<noteq> [])"

definition env_or :: "env \<Rightarrow> string \<Rightarrow> string \<Rightarrow> string" where
  "env_or e k d = (case e k of None \<Rightarrow> d | Some v \<Rightarrow> if v = [] then d else v)"

definition env_text :: "env \<Rightarrow> string \<Rightarrow> string" where
  "env_text e k = (case e k of None \<Rightarrow> ''undefined'' | Some v \<Rightarrow> v)"

text \<open>
  An \<open>async\<close> function returns a promise: it resolves with the returned value, or rejects
  with the exception that escaped the body.
\<close>

datatype js_exception = ReferenceError string | TypeError string

datatype 'a promise = Resolved 'a | Rejected js_exception

record send_result =
  success :: bool
  error :: "string option"

text \<open>
  What a call of the mail transport does: it returns, or it throws an error whose
  \<open>message\<close> may be missing.
\<close>

datatype send_outcome = Delivered | Thrown "string option"

subsection \<open>generateOTP\<close>

text \<open>
  \<open>crypto.randomInt(min, max)\<close> of Node draws an integer \<open>n\<close> with \<open>min \<le> n < max\<close>.
  The draw is made explicit: the function takes the entropy it consumes and reduces it
  into the range, as Node does (\<open>n = x % (max - min) + min\<close>).
\<close>

definition randomInt :: "nat \<Rightarrow> nat \<Rightarrow> nat \<Rightarrow> nat" where
  "randomInt lo hi entropy = lo + entropy mod (hi - lo)"

definition digit_char :: "nat \<Rightarrow> char" where
  "digit_char d = ''0123456789'' ! d"

text \<open>\<open>Number.prototype.toString()\<close> on a non-negative integer: its decimal digits.\<close>

fun toString :: "nat \<Rightarrow> string" where
  "toString n =
     (if n < 10 then [digit_char n] else toString (n div 10) @ [digit_char (n mod 10)])"

declare toString.simps [simp del]

definition generateOTP :: "nat \<Rightarrow> string" where
  "generateOTP entropy = toString (randomInt 100000 999999 entropy)"

text \<open>Reading a result back: which characters are decimal digits, and the number they write.\<close>

definition is_digit :: "char \<Rightarrow> bool" where
  "is_digit c = (c \<in> set ''0123456789'')"

definition digit_value :: "char \<Rightarrow> nat" where
  "digit_value c = of_char c - 48"

definition numeric_value :: "string \<Rightarrow> nat" where
  "numeric_value s = foldl (\<lambda>acc c. 10 * acc + digit_value c) 0 s"

subsection \<open>sendOTPEmail\<close>

definition verifySendGridConfig :: "env \<Rightarrow> bool" where
  "verifySendGridConfig e =
     (if \<not> env_truthy e ''SENDGRID_API_KEY'' then False
      else if \<not> env_truthy e ''SENDGRID_FROM_EMAIL'' then True
      else True)"

text \<open>
  The three HTML bodies differ in fixed wording and colour and embed the OTP; a body is
  kept as the template chosen and the OTP interpolated into it.
\<close>

datatype otp_html = RegistrationHtml string | ForgotPasswordHtml string | EmailVerificationHtml string

record sg_message =
  msg_to :: string
  msg_from :: string
  msg_subject :: string
  msg_html :: otp_html

text \<open>The \<open>switch (type)\<close>: \<open>None\<close> is the \<open>default\<close> branch.\<close>

definition otp_template :: "jsval \<Rightarrow> string \<Rightarrow> (string \<times> otp_html) option" where
  "otp_template type otp =
     (if type = JStr ''registration''
        then Some (''Verify Your Email - Alumni Platform'', RegistrationHtml otp)
      else if type = JStr ''forgot_password''
        then Some (''Reset Your Password - Alumni Platform'', ForgotPasswordHtml otp)
      else if type = JStr ''email_verification''
        then Some (''Verify Your Email - Alumni Platform'', EmailVerificationHtml otp)
      else None)"

definition thrown_message :: "string option \<Rightarrow> string" where
  "thrown_message m =
     (case m of None \<Rightarrow> ''Failed to send email''
      | Some t \<Rightarrow> if t = [] then ''Failed to send email'' else t)"

text \<open>
  \<open>sendOTPEmail\<close> returns its promise together with the messages handed to
  \<open>sgMail.send\<close>, in order. Console output is not modelled.
\<close>

definition sendOTPEmail ::
  "env \<Rightarrow> (sg_message \<Rightarrow> send_outcome) \<Rightarrow> string \<Rightarrow> string \<Rightarrow> jsval
     \<Rightarrow> send_result promise \<times> sg_message list" where
  "sendOTPEmail e send email otp type =
     (if \<not> verifySendGridConfig e then
        (Resolved \<lparr>success = False,
           error = Some ''SendGrid is not properly configured. Please check your environment variables.''\<rparr>,
         [])
      else
        (case otp_template type otp of
           None \<Rightarrow>
             (Resolved \<lparr>success = False, error = Some ''Invalid email type specified''\<rparr>, [])
         | Some (subject, html) \<Rightarrow>
             (let msg = \<lparr>msg_to = email,
                         msg_from = env_or e ''SENDGRID_FROM_EMAIL'' ''noreply@alumniplatform.com'',
                         msg_subject = subject,
                         msg_html = html\<rparr>
              in case send msg of
                   Delivered \<Rightarrow> (Resolved \<lparr>success = True, error = None\<rparr>, [msg])
                 | Thrown m \<Rightarrow>
                     (Resolved \<lparr>success = False, error = Some (thrown_message m)\<rparr>, [msg]))))"

subsection \<open>sendAdminApprovalEmail\<close>

text \<open>
  The identifiers bound at the top level of the module (its \<open>const\<close> declarations), and
  the ones Node provides to every module that the file uses. A free identifier that is
  in neither raises \<open>ReferenceError\<close> when it is evaluated.
\<close>

definition module_scope :: "string list" where
  "module_scope =
     [''sgMail'', ''crypto'', ''verifySendGridConfig'', ''generateOTP'', ''sendOTPEmail'',
      ''sendAdminApprovalEmail'']"

definition node_globals :: "string list" where
  "node_globals = [''require'', ''process'', ''console'', ''module'']"

definition in_scope :: "string \<Rightarrow> bool" where
  "in_scope ident = (ident \<in> set (module_scope @ node_globals))"

record alumni =
  name :: string
  email :: string
  batch :: string
  branch :: string
  location :: string

datatype admin_html = ApprovalHtml alumni

record mail_options =
  mail_from :: string
  mail_to :: string
  mail_subject :: string
  mail_html :: admin_html

text \<open>
  The first statement calls \<open>createTransporter\<close>, outside the \<open>try\<close>. The \<open>alumni\<close>
  argument may be \<open>undefined\<close> or \<open>null\<close> (\<open>None\<close>): reading a property of it throws
  \<open>TypeError\<close>, also outside the \<open>try\<close>. \<open>sendMail\<close> stands for the method of the transporter.
\<close>

definition sendAdminApprovalEmail ::
  "env \<Rightarrow> (mail_options \<Rightarrow> send_outcome) \<Rightarrow> string \<Rightarrow> alumni option
     \<Rightarrow> send_result promise \<times> mail_options list" where
  "sendAdminApprovalEmail e sendMail adminEmail alumni_arg =
     (if \<not> in_scope ''createTransporter'' then
        (Rejected (ReferenceError ''createTransporter is not defined''), [])
      else
        (case alumni_arg of
           None \<Rightarrow> (Rejected (TypeError ''Cannot read properties of undefined''), [])
         | Some a \<Rightarrow>
             (let mailOptions =
                    \<lparr>mail_from = ''Alumni Platform <'' @ env_text e ''EMAIL_USER'' @ ''>'',
                     mail_to = adminEmail,
                     mail_subject = ''New Alumni Registration Pending Approval'',
                     mail_html = ApprovalHtml a\<rparr>
              in case sendMail mailOptions of
                   Delivered \<Rightarrow> (Resolved \<lparr>success = True, error = None\<rparr>, [mailOptions])
                 | Thrown m \<Rightarrow> (Resolved \<lparr>success = False, error = m\<rparr>, [mailOptions]))))"

subsection \<open>Sample inputs of the email service\<close>

text \<open>Sample inputs: a configured and an unconfigured environment, a transport that delivers.\<close>

definition configured_env :: env where
  "configured_env = [''SENDGRID_API_KEY'' \<mapsto> ''SG.key'']"

definition unconfigured_env :: env where
  "unconfigured_env = Map.empty"

definition always_delivers :: "sg_message \<Rightarrow> send_outcome" where
  "always_delivers m = Delivered"

definition transporter_delivers :: "mail_options \<Rightarrow> send_outcome" where
  "transporter_delivers m = Delivered"

definition sample_alumni :: alumni where
  "sample_alumni =
     \<lparr>name = ''Asha'', email = ''asha@example.org'', batch = ''2019'', branch = ''CSE'',
      location = ''Pune''\<rparr>"

section \<open>Real-time layer (the Socket.io setup of the server entry file)\<close>

text \<open>
  The entry file installs the authentication middleware (\<open>io.use(socketAuth)\<close>) and, for
  every admitted socket, runs the \<open>connection\<close> callback: it joins the personal room and
  installs the \<open>joinConversation\<close>, \<open>leaveConversation\<close> and \<open>disconnect\<close> handlers. The
  handlers are translated from that file. What \<open>socket.join\<close> and \<open>socket.leave\<close> do to the
  rooms, the bookkeeping of live connections and \<open>socketAuth\<close> itself are not in the
  repository's files; they are modelled from the specification, each marked as such. One
  behaviour of the transport is taken from Socket.IO itself: a socket is a member of the
  room named by its own identifier from the moment it is admitted.
\<close>

type_synonym connId = string
type_synonym userId = string
type_synonym room = string

subsection \<open>Connection Registry and Room Membership Index\<close>

text \<open>
  Modelled from the spec: the member set of a room and the room set of a connection are
  sets. They are kept as lists without repetition, in insertion order, so that "for each
  room in that set" of the disconnect cleanup is a fold.
\<close>

definition set_add :: "'a \<Rightarrow> 'a list \<Rightarrow> 'a list" where
  "set_add x xs = (if x \<in> set xs then xs else xs @ [x])"

definition set_delete :: "'a \<Rightarrow> 'a list \<Rightarrow> 'a list" where
  "set_delete x xs = removeAll x xs"

text \<open>
  Modelled from the spec: a registry entry (the Connection of the data model) holds the
  owning user identifier and the current room set; the registry is keyed by connection
  identifier.
\<close>

record connection =
  owner :: userId
  rooms :: "room list"

type_synonym connection_registry = "connId \<rightharpoonup> connection"

text \<open>
  Modelled from the spec: the failures of the error taxonomy that refuse an operation.
  Authorization and delivery failures are silent by design and have no value here.
\<close>

datatype failure = AuthenticationFailure | RegistryInvariantViolation

text \<open>
  Modelled from the spec: \<open>register(connectionId, userId)\<close> inserts a new live entry and
  fails if the connection identifier is already present.
\<close>

definition register ::
  "connId \<Rightarrow> userId \<Rightarrow> connection_registry \<Rightarrow> failure + connection_registry" where
  "register c uid reg =
     (case reg c of
        Some present \<Rightarrow> Inl RegistryInvariantViolation
      | None \<Rightarrow> Inr (reg(c \<mapsto> \<lparr>owner = uid, rooms = []\<rparr>)))"

text \<open>Modelled from the spec: \<open>lookup(connectionId)\<close> gives the user identifier or not-found.\<close>

definition lookup :: "connId \<Rightarrow> connection_registry \<Rightarrow> userId option" where
  "lookup c reg = map_option owner (reg c)"

text \<open>
  Modelled from the spec: \<open>unregister(connectionId)\<close> removes the entry and returns its
  final room set; on an absent connection it is a no-op. It never touches the room index.
\<close>

definition unregister :: "connId \<Rightarrow> connection_registry \<Rightarrow> room list \<times> connection_registry" where
  "unregister c reg =
     (case reg c of None \<Rightarrow> ([], reg) | Some entry \<Rightarrow> (rooms entry, reg(c := None)))"

text \<open>Modelled from the spec: the room set the registry records for a connection.\<close>

definition rooms_of :: "connId \<Rightarrow> connection_registry \<Rightarrow> room list" where
  "rooms_of c reg = (case reg c of None \<Rightarrow> [] | Some entry \<Rightarrow> rooms entry)"

text \<open>
  Modelled from the spec: the Room Membership Index maps a room identifier to its member
  set; a room is an entry of the index. \<open>join(roomId, connectionId)\<close> adds the connection
  and creates the entry if absent.
\<close>

type_synonym room_index = "room \<rightharpoonup> connId list"

definition join :: "room \<Rightarrow> connId \<Rightarrow> room_index \<Rightarrow> room_index" where
  "join r c idx =
     (case idx r of None \<Rightarrow> idx(r \<mapsto> [c]) | Some members \<Rightarrow> idx(r \<mapsto> set_add c members))"

text \<open>
  Modelled from the spec: \<open>leave(roomId, connectionId)\<close> removes the connection; if the
  member set becomes empty, the room entry is deleted.
\<close>

definition leave :: "room \<Rightarrow> connId \<Rightarrow> room_index \<Rightarrow> room_index" where
  "leave r c idx =
     (case idx r of
        None \<Rightarrow> idx
      | Some members \<Rightarrow>
          (let remaining = set_delete c members
           in if remaining = [] then idx(r := None) else idx(r \<mapsto> remaining)))"

text \<open>Modelled from the spec: \<open>membersOf(roomId)\<close>, possibly empty.\<close>

definition membersOf :: "room \<Rightarrow> room_index \<Rightarrow> connId list" where
  "membersOf r idx = (case idx r of None \<Rightarrow> [] | Some members \<Rightarrow> members)"

text \<open>
  Modelled from the spec: \<open>dispatch(roomId, eventKind, payload)\<close> looks up the members of
  the room and delivers the event to each. The result lists the deliveries made.
\<close>

definition dispatch :: "room \<Rightarrow> 'k \<Rightarrow> 'p \<Rightarrow> room_index \<Rightarrow> (connId \<times> 'k \<times> 'p) list" where
  "dispatch r kind payload idx = map (\<lambda>c. (c, kind, payload)) (membersOf r idx)"

text \<open>Modelled from the spec: the process-wide state is the registry and the index.\<close>

record server =
  registry :: connection_registry
  index :: room_index

text \<open>
  Modelled from the spec: what \<open>socket.join(room)\<close> and \<open>socket.leave(room)\<close> of a live
  connection do. A join or leave updates both sides, the room set of the connection in the
  registry and the member set in the index; a request of a connection that is not
  registered (never admitted, or terminated) is not executed.
\<close>

definition socket_join :: "room \<Rightarrow> connId \<Rightarrow> server \<Rightarrow> server" where
  "socket_join r c st =
     (case registry st c of
        None \<Rightarrow> st
      | Some entry \<Rightarrow>
          st\<lparr>registry := (registry st)(c \<mapsto> entry\<lparr>rooms := set_add r (rooms entry)\<rparr>),
             index := join r c (index st)\<rparr>)"

definition socket_leave :: "room \<Rightarrow> connId \<Rightarrow> server \<Rightarrow> server" where
  "socket_leave r c st =
     (case registry st c of
        None \<Rightarrow> st
      | Some entry \<Rightarrow>
          st\<lparr>registry := (registry st)(c \<mapsto> entry\<lparr>rooms := set_delete r (rooms entry)\<rparr>),
             index := leave r c (index st)\<rparr>)"

text \<open>
  Modelled from the spec: the disconnect cleanup. \<open>unregister\<close> returns the final room
  set; for each room in that set, \<open>leave\<close> is called on the index.
\<close>

definition disconnect_cleanup :: "connId \<Rightarrow> server \<Rightarrow> server" where
  "disconnect_cleanup c st =
     (case unregister c (registry st) of
        (final_rooms, reg) \<Rightarrow>
          st\<lparr>registry := reg, index := fold (\<lambda>r. leave r c) final_rooms (index st)\<rparr>)"

text \<open>
  Modelled from the spec: the participancy query to the external data store, "is user U a
  participant of conversation C?", false also when the conversation is not found.
\<close>

type_synonym data_store = "string \<rightharpoonup> userId list"

definition is_participant :: "data_store \<Rightarrow> userId \<Rightarrow> string \<Rightarrow> bool" where
  "is_participant store uid conversationId =
     (case store conversationId of
        None \<Rightarrow> False
      | Some participants \<Rightarrow> uid \<in> set participants)"

subsection \<open>The handlers of the entry file\<close>

text \<open>
  The calls a handler makes on its socket, in order. The \<open>connection\<close> callback joins
  \<^verbatim>\<open>user_${socket.userId}\<close>; \<open>joinConversation\<close> joins and \<open>leaveConversation\<close> leaves
  \<^verbatim>\<open>conversation_${conversationId}\<close>; \<open>disconnect\<close> only logs. Identifiers are strings,
  so the template literals are concatenations.
\<close>

datatype socket_call = SocketJoin room | SocketLeave room

definition on_connection :: "userId \<Rightarrow> socket_call list" where
  "on_connection uid = [SocketJoin (''user_'' @ uid)]"

definition on_joinConversation :: "string \<Rightarrow> socket_call list" where
  "on_joinConversation conversationId = [SocketJoin (''conversation_'' @ conversationId)]"

definition on_leaveConversation :: "string \<Rightarrow> socket_call list" where
  "on_leaveConversation conversationId = [SocketLeave (''conversation_'' @ conversationId)]"

definition on_disconnect :: "socket_call list" where
  "on_disconnect = []"

fun exec_call :: "connId \<Rightarrow> socket_call \<Rightarrow> server \<Rightarrow> server" where
  "exec_call c (SocketJoin r) st = socket_join r c st"
| "exec_call c (SocketLeave r) st = socket_leave r c st"

text \<open>Running a handler for connection \<open>c\<close>: the calls it issued, and the state they leave.\<close>

definition run_handler ::
  "connId \<Rightarrow> socket_call list \<Rightarrow> server \<Rightarrow> (connId \<times> socket_call) list \<times> server" where
  "run_handler c calls st = (map (Pair c) calls, fold (exec_call c) calls st)"

subsection \<open>The server as a transition system\<close>

datatype event =
    Connect connId "string option"
  | JoinConversation connId string
  | LeaveConversation connId string
  | Disconnect connId

text \<open>
  Modelled from the spec: the Identity Verifier (\<open>socketAuth\<close> of \<open>middleware/auth\<close>, which
  is not among the files) is a parameter: given the presented credential, which may be
  absent, it resolves the user identifier or rejects.
\<close>

type_synonym verifier = "string option \<Rightarrow> userId option"

text \<open>
  Admission of a verified connection by the transport: the connection is recorded, and
  Socket.IO joins every socket to the room named by the socket's own identifier before the
  \<open>connection\<close> callback runs.
\<close>

definition admit :: "connId \<Rightarrow> connection_registry \<Rightarrow> server \<Rightarrow> server" where
  "admit c reg st = socket_join c c (st\<lparr>registry := reg\<rparr>)"

text \<open>
  One event of the transport. A connection attempt passes the middleware first; when the
  verifier rejects, the connection is refused (modelled from the spec: before it is
  admitted to the registry) and the \<open>connection\<close> callback does not run. The three other
  handlers exist only on a socket for which the callback ran. On disconnect the cleanup
  precedes the handler. The calls returned are those of the handler.
\<close>

fun step ::
  "verifier \<Rightarrow> server \<Rightarrow> event \<Rightarrow> failure + (connId \<times> socket_call) list \<times> server" where
  "step verify st (Connect c token) =
     (case verify token of
        None \<Rightarrow> Inl AuthenticationFailure
      | Some uid \<Rightarrow>
          (case register c uid (registry st) of
             Inl f \<Rightarrow> Inl f
           | Inr reg \<Rightarrow> Inr (run_handler c (on_connection uid) (admit c reg st))))"
| "step verify st (JoinConversation c conversationId) =
     (case registry st c of
        None \<Rightarrow> Inr ([], st)
      | Some entry \<Rightarrow> Inr (run_handler c (on_joinConversation conversationId) st))"
| "step verify st (LeaveConversation c conversationId) =
     (case registry st c of
        None \<Rightarrow> Inr ([], st)
      | Some entry \<Rightarrow> Inr (run_handler c (on_leaveConversation conversationId) st))"
| "step verify st (Disconnect c) =
     (case registry st c of
        None \<Rightarrow> Inr ([], st)
      | Some entry \<Rightarrow> Inr (run_handler c on_disconnect (disconnect_cleanup c st)))"

text \<open>The state after an event (a refused event leaves it as it was) and the calls issued.\<close>

definition after :: "verifier \<Rightarrow> server \<Rightarrow> event \<Rightarrow> server" where
  "after verify st ev = (case step verify st ev of Inl f \<Rightarrow> st | Inr (calls, st') \<Rightarrow> st')"

definition issued :: "verifier \<Rightarrow> server \<Rightarrow> event \<Rightarrow> (connId \<times> socket_call) list" where
  "issued verify st ev = (case step verify st ev of Inl f \<Rightarrow> [] | Inr (calls, st') \<Rightarrow> calls)"

fun run :: "verifier \<Rightarrow> server \<Rightarrow> event list \<Rightarrow> server" where
  "run verify st [] = st"
| "run verify st (ev # evs) = run verify (after verify st ev) evs"

fun journal :: "verifier \<Rightarrow> server \<Rightarrow> event list \<Rightarrow> (connId \<times> socket_call) list" where
  "journal verify st [] = []"
| "journal verify st (ev # evs) = issued verify st ev @ journal verify (after verify st ev) evs"

definition initial :: server where
  "initial = \<lparr>registry = Map.empty, index = Map.empty\<rparr>"

subsection \<open>Well-formed states\<close>

text \<open>
  Symmetry of membership: the index lists \<open>c\<close> in room \<open>r\<close> exactly when the registry lists
  \<open>r\<close> among the rooms of \<open>c\<close>. No lingering empty room: no entry of the index has an empty
  member set.
\<close>

definition symmetric :: "server \<Rightarrow> bool" where
  "symmetric st =
     (\<forall>c r. c \<in> set (membersOf r (index st)) \<longleftrightarrow> r \<in> set (rooms_of c (registry st)))"

definition no_empty_room :: "room_index \<Rightarrow> bool" where
  "no_empty_room idx = (\<forall>r. idx r \<noteq> Some [])"

subsection \<open>Sample inputs\<close>

definition sample_verify :: verifier where
  "sample_verify token =
     (case token of
        None \<Rightarrow> None
      | Some t \<Rightarrow> map_of [(''token-U1'', ''U1''), (''token-U2'', ''U2'')] t)"

definition sample_store :: data_store where
  "sample_store = [''c7'' \<mapsto> [''U2'']]"

definition one_connection :: server where
  "one_connection = after sample_verify initial (Connect ''A'' (Some ''token-U1''))"

definition joined_42 :: server where
  "joined_42 =
     run sample_verify initial [Connect ''A'' (Some ''token-U1''), JoinConversation ''A'' ''42'']"

definition refused_attempt :: "event list" where
  "refused_attempt =
     [Connect ''B'' (Some ''forged''), JoinConversation ''B'' ''c7'',
      Connect ''A'' (Some ''token-U1''), Connect ''B'' None, JoinConversation ''A'' ''c7'',
      LeaveConversation ''B'' ''c7'', Disconnect ''B'']"

definition two_rooms :: room_index where
  "two_rooms = [''conversation_c7'' \<mapsto> [''A'', ''B''], ''conversation_c8'' \<mapsto> [''B'', ''C'']]"

section \<open>Properties of the email service\<close>

subsection \<open>Decimal digits\<close>

lemma digit_cases:
  "d < 10 \<Longrightarrow>
   d = 0 \<or> d = 1 \<or> d = 2 \<or> d = 3 \<or> d = 4 \<or> d = 5 \<or> d = 6 \<or> d = 7 \<or> d = 8 \<or> d = (9::nat)"
  by arith

lemma digit_char_is_digit: "d < 10 \<Longrightarrow> is_digit (digit_char d)"
  using digit_cases [of d] by (auto simp: is_digit_def digit_char_def)

lemma digit_value_digit_char: "d < 10 \<Longrightarrow> digit_value (digit_char d) = d"
  using digit_cases [of d] by (auto simp: digit_value_def digit_char_def)

lemma digit_char_zero_iff: "d < 10 \<Longrightarrow> digit_char d = CHR ''0'' \<longleftrightarrow> d = 0"
  using digit_cases [of d] by (auto simp: digit_char_def)

lemma toString_digits: "list_all is_digit (toString n)"
proof (induction n rule: toString.induct)
  case (1 n)
  show ?case
  proof (cases "n < 10")
    case True
    then show ?thesis by (simp add: toString.simps [of n] digit_char_is_digit)
  next
    case False
    with 1 show ?thesis by (simp add: toString.simps [of n] digit_char_is_digit)
  qed
qed

lemma numeric_value_snoc: "numeric_value (s @ [c]) = 10 * numeric_value s + digit_value c"
  by (simp add: numeric_value_def)

lemma numeric_value_toString: "numeric_value (toString n) = n"
proof (induction n rule: toString.induct)
  case (1 n)
  show ?case
  proof (cases "n < 10")
    case True
    then show ?thesis
      by (simp add: toString.simps [of n] numeric_value_def digit_value_digit_char)
  next
    case False
    with 1 show ?thesis
      by (simp add: toString.simps [of n] numeric_value_snoc digit_value_digit_char)
  qed
qed

lemma toString_length:
  "10 ^ k \<le> n \<Longrightarrow> n < 10 ^ Suc k \<Longrightarrow> length (toString n) = Suc k"
proof (induction k arbitrary: n)
  case 0
  then show ?case by (simp add: toString.simps [of n])
next
  case (Suc k)
  have "(1::nat) \<le> 10 ^ k" by simp
  moreover from Suc.prems have "10 * 10 ^ k \<le> n" by simp
  ultimately have big: "\<not> n < 10" by linarith
  from Suc.prems have "10 ^ k \<le> n div 10" "n div 10 < 10 ^ Suc k"
    by auto
  then have "length (toString (n div 10)) = Suc k" by (rule Suc.IH)
  with big show ?case by (simp add: toString.simps [of n])
qed

lemma toString_hd:
  "10 ^ k \<le> n \<Longrightarrow> n < 10 ^ Suc k \<Longrightarrow> hd (toString n) = digit_char (n div 10 ^ k)"
proof (induction k arbitrary: n)
  case 0
  then show ?case by (simp add: toString.simps [of n])
next
  case (Suc k)
  have "(1::nat) \<le> 10 ^ k" by simp
  moreover from Suc.prems have "10 * 10 ^ k \<le> n" by simp
  ultimately have big: "\<not> n < 10" by linarith
  from Suc.prems have b: "10 ^ k \<le> n div 10" "n div 10 < 10 ^ Suc k"
    by auto
  then have "hd (toString (n div 10)) = digit_char (n div 10 div 10 ^ k)" by (rule Suc.IH)
  moreover have "toString (n div 10) \<noteq> []"
    using toString_length [OF b] by auto
  ultimately show ?case using big
    by (simp add: toString.simps [of n] div_mult2_eq)
qed

subsection \<open>C8: the shape of an OTP\<close>

text \<open>
  C8. Whatever the random draw, \<open>generateOTP\<close> returns a string of exactly six decimal
  digits; the number it writes lies between 100000 and 999998 inclusive, and its first
  digit is not 0.
\<close>

theorem generateOTP_six_digits:
  "length (generateOTP entropy) = 6
   \<and> list_all is_digit (generateOTP entropy)
   \<and> 100000 \<le> numeric_value (generateOTP entropy)
   \<and> numeric_value (generateOTP entropy) \<le> 999998
   \<and> hd (generateOTP entropy) \<noteq> CHR ''0''"
proof -
  define n where "n = randomInt 100000 999999 entropy"
  have lo: "100000 \<le> n" by (simp add: n_def randomInt_def)
  have "entropy mod 899999 < 899999" by simp
  then have hi: "n \<le> 999998" by (simp add: n_def randomInt_def)
  have r: "10 ^ 5 \<le> n" "n < 10 ^ Suc 5" using lo hi by simp_all
  have len: "length (toString n) = 6" using toString_length [OF r] by simp
  have d: "n div 10 ^ 5 < 10" "n div 10 ^ 5 \<noteq> 0" using lo hi by simp_all
  have "hd (toString n) = digit_char (n div 10 ^ 5)" using toString_hd [OF r] .
  then have h: "hd (toString n) \<noteq> CHR ''0''"
    using digit_char_zero_iff [OF d(1)] d(2) by simp
  show ?thesis
    unfolding generateOTP_def n_def [symmetric]
    using len toString_digits [of n] numeric_value_toString [of n] lo hi h by simp
qed

subsection \<open>C9: an unknown email type\<close>

text \<open>
  C9, as stated, fails: with \<open>SENDGRID_API_KEY\<close> unset the configuration guard returns
  first, and the error of the result is the configuration message, not
  \<open>'Invalid email type specified'\<close>.
\<close>

theorem sendOTPEmail_invalid_type_counterexample:
  "JStr ''sms'' \<noteq> JStr ''registration''
   \<and> JStr ''sms'' \<noteq> JStr ''forgot_password''
   \<and> JStr ''sms'' \<noteq> JStr ''email_verification''
   \<and> fst (sendOTPEmail unconfigured_env always_delivers ''a@example.org'' ''123456'' (JStr ''sms''))
       \<noteq> Resolved \<lparr>success = False, error = Some ''Invalid email type specified''\<rparr>"
  by (simp add: sendOTPEmail_def verifySendGridConfig_def env_truthy_def unconfigured_env_def)

text \<open>
  C9, amended. For a \<open>type\<close> other than \<open>"registration"\<close>, \<open>"forgot_password"\<close> and
  \<open>"email_verification"\<close>, \<open>sendOTPEmail\<close> makes no send call and resolves with
  \<open>success: false\<close>; the error is \<open>'Invalid email type specified'\<close> when
  \<open>SENDGRID_API_KEY\<close> is set, and the configuration message when it is not.
\<close>

theorem sendOTPEmail_invalid_type:
  assumes "type \<noteq> JStr ''registration''"
    and "type \<noteq> JStr ''forgot_password''"
    and "type \<noteq> JStr ''email_verification''"
  shows "sendOTPEmail e send addr otp type =
     (Resolved \<lparr>success = False,
        error = Some (if env_truthy e ''SENDGRID_API_KEY''
                      then ''Invalid email type specified''
                      else ''SendGrid is not properly configured. Please check your environment variables.'')\<rparr>,
      [])"
  using assms by (simp add: sendOTPEmail_def verifySendGridConfig_def otp_template_def)

theorem sendOTPEmail_invalid_type_witness:
  "JStr ''sms'' \<noteq> JStr ''registration''
   \<and> JStr ''sms'' \<noteq> JStr ''forgot_password''
   \<and> JStr ''sms'' \<noteq> JStr ''email_verification''
   \<and> sendOTPEmail configured_env always_delivers ''a@example.org'' ''123456'' (JStr ''sms'') =
       (Resolved \<lparr>success = False, error = Some ''Invalid email type specified''\<rparr>, [])"
  using sendOTPEmail_invalid_type
    [of "JStr ''sms''" configured_env always_delivers "''a@example.org''" "''123456''"]
  by (simp add: env_truthy_def configured_env_def)

subsection \<open>C10: the admin approval email\<close>

lemma createTransporter_unbound: "\<not> in_scope ''createTransporter''"
  by (simp add: in_scope_def module_scope_def node_globals_def)

text \<open>
  C10. For every admin address and every \<open>alumni\<close> argument, the promise of
  \<open>sendAdminApprovalEmail\<close> rejects with a \<open>ReferenceError\<close> for \<open>createTransporter\<close>,
  no mail is handed to a transport, and the promise never resolves (so never with
  \<open>success: true\<close>).
\<close>

theorem sendAdminApprovalEmail_rejects:
  "sendAdminApprovalEmail e sendMail adminEmail alumni_arg =
     (Rejected (ReferenceError ''createTransporter is not defined''), [])
   \<and> (\<nexists>r. fst (sendAdminApprovalEmail e sendMail adminEmail alumni_arg) = Resolved r)"
  by (simp add: sendAdminApprovalEmail_def createTransporter_unbound)

section \<open>Properties of the real-time layer\<close>

subsection \<open>Effect of the operations on member sets\<close>

lemma membersOf_join:
  "membersOf r' (join r c idx) = (if r' = r then set_add c (membersOf r idx) else membersOf r' idx)"
  by (auto simp: membersOf_def join_def set_add_def split: option.splits)

lemma membersOf_leave:
  "membersOf r' (leave r c idx) = (if r' = r then set_delete c (membersOf r idx) else membersOf r' idx)"
  by (auto simp: membersOf_def leave_def Let_def set_delete_def split: option.splits)

lemma set_set_add [simp]: "set (set_add x xs) = insert x (set xs)"
  by (auto simp: set_add_def)

lemma set_set_delete [simp]: "set (set_delete x xs) = set xs - {x}"
  by (auto simp: set_delete_def)

lemma membersOf_fold_leave:
  "membersOf r (fold (\<lambda>r. leave r c) rs idx) =
     (if r \<in> set rs then set_delete c (membersOf r idx) else membersOf r idx)"
proof (induction rs arbitrary: idx)
  case Nil
  then show ?case by simp
next
  case (Cons a rs)
  show ?case
    by (simp add: Cons.IH membersOf_leave set_delete_def)
qed

lemma no_empty_join: "no_empty_room idx \<Longrightarrow> no_empty_room (join r c idx)"
  by (auto simp: no_empty_room_def join_def set_add_def split: option.splits)

lemma no_empty_leave: "no_empty_room idx \<Longrightarrow> no_empty_room (leave r c idx)"
  by (auto simp: no_empty_room_def leave_def Let_def split: option.splits)

lemma no_empty_fold_leave:
  "no_empty_room idx \<Longrightarrow> no_empty_room (fold (\<lambda>r. leave r c) rs idx)"
  by (induction rs arbitrary: idx) (simp_all add: no_empty_leave)

lemma rooms_of_upd:
  "rooms_of c' (reg(c \<mapsto> e)) = (if c' = c then rooms e else rooms_of c' reg)"
  by (simp add: rooms_of_def)

lemma symmetric_socket_join: "symmetric st \<Longrightarrow> symmetric (socket_join r c st)"
  by (auto simp: symmetric_def socket_join_def membersOf_join rooms_of_upd split: option.splits)
     (auto simp: rooms_of_def)

lemma symmetric_socket_leave: "symmetric st \<Longrightarrow> symmetric (socket_leave r c st)"
  by (auto simp: symmetric_def socket_leave_def membersOf_leave rooms_of_upd split: option.splits)
     (auto simp: rooms_of_def)

lemma rooms_of_register:
  assumes "register c uid reg = Inr reg'"
  shows "rooms_of c' reg' = rooms_of c' reg"
proof -
  from assms have "reg c = None" and "reg' = reg(c \<mapsto> \<lparr>owner = uid, rooms = []\<rparr>)"
    by (auto simp: register_def split: option.splits)
  then show ?thesis by (simp add: rooms_of_def)
qed

lemma symmetric_register:
  "symmetric st \<Longrightarrow> register c uid (registry st) = Inr reg \<Longrightarrow> symmetric (st\<lparr>registry := reg\<rparr>)"
  by (simp add: symmetric_def rooms_of_register)

lemma symmetric_disconnect_cleanup: "symmetric st \<Longrightarrow> symmetric (disconnect_cleanup c st)"
  by (auto simp: symmetric_def disconnect_cleanup_def unregister_def membersOf_fold_leave
      rooms_of_def split: option.splits if_splits)

subsection \<open>Invariants along a run\<close>

lemma one_connection_eq:
  "one_connection =
     \<lparr>registry = [''A'' \<mapsto> \<lparr>owner = ''U1'', rooms = [''A'', ''user_U1'']\<rparr>],
      index = [''A'' \<mapsto> [''A''], ''user_U1'' \<mapsto> [''A'']]\<rparr>"
  by (simp add: one_connection_def after_def sample_verify_def register_def initial_def
      run_handler_def on_connection_def admit_def socket_join_def join_def set_add_def)

lemma symmetric_admit:
  "symmetric st \<Longrightarrow> register c uid (registry st) = Inr reg \<Longrightarrow> symmetric (admit c reg st)"
  unfolding admit_def by (intro symmetric_socket_join symmetric_register)

lemma no_empty_admit: "no_empty_room (index st) \<Longrightarrow> no_empty_room (index (admit c reg st))"
  by (auto simp: admit_def socket_join_def no_empty_join split: option.splits)

lemma symmetric_initial: "symmetric initial"
  by (simp add: symmetric_def initial_def membersOf_def rooms_of_def)

lemma no_empty_initial: "no_empty_room (index initial)"
  by (simp add: no_empty_room_def initial_def)

lemma symmetric_exec_call: "symmetric st \<Longrightarrow> symmetric (exec_call c call st)"
  by (cases call) (simp_all add: symmetric_socket_join symmetric_socket_leave)

lemma symmetric_fold_exec:
  "symmetric st \<Longrightarrow> symmetric (fold (exec_call c) calls st)"
  by (induction calls arbitrary: st) (simp_all add: symmetric_exec_call)

lemma symmetric_after: "symmetric st \<Longrightarrow> symmetric (after verify st ev)"
proof (cases ev)
  case (Connect c token)
  assume "symmetric st"
  then show ?thesis using Connect
    by (auto simp: after_def run_handler_def symmetric_fold_exec symmetric_admit
        split: option.splits sum.splits)
next
  case (JoinConversation c conv)
  assume "symmetric st"
  then show ?thesis using JoinConversation
    by (auto simp: after_def run_handler_def symmetric_fold_exec split: option.splits)
next
  case (LeaveConversation c conv)
  assume "symmetric st"
  then show ?thesis using LeaveConversation
    by (auto simp: after_def run_handler_def symmetric_fold_exec split: option.splits)
next
  case (Disconnect c)
  assume "symmetric st"
  then show ?thesis using Disconnect
    by (auto simp: after_def run_handler_def symmetric_fold_exec symmetric_disconnect_cleanup
        split: option.splits)
qed

lemma symmetric_run: "symmetric st \<Longrightarrow> symmetric (run verify st evs)"
  by (induction evs arbitrary: st) (simp_all add: symmetric_after)

lemma index_socket_join: "index (socket_join r c st) = index st \<or> index (socket_join r c st) = join r c (index st)"
  by (simp add: socket_join_def split: option.splits)

lemma index_socket_leave: "index (socket_leave r c st) = index st \<or> index (socket_leave r c st) = leave r c (index st)"
  by (simp add: socket_leave_def split: option.splits)

lemma no_empty_exec_call: "no_empty_room (index st) \<Longrightarrow> no_empty_room (index (exec_call c call st))"
proof (cases call)
  case (SocketJoin r)
  assume "no_empty_room (index st)"
  then show ?thesis using SocketJoin index_socket_join [of r c st]
    by (auto simp: no_empty_join)
next
  case (SocketLeave r)
  assume "no_empty_room (index st)"
  then show ?thesis using SocketLeave index_socket_leave [of r c st]
    by (auto simp: no_empty_leave)
qed

lemma no_empty_fold_exec:
  "no_empty_room (index st) \<Longrightarrow> no_empty_room (index (fold (exec_call c) calls st))"
  by (induction calls arbitrary: st) (simp_all add: no_empty_exec_call)

lemma index_disconnect_cleanup:
  "index (disconnect_cleanup c st) = fold (\<lambda>r. leave r c) (rooms_of c (registry st)) (index st)"
  by (simp add: disconnect_cleanup_def unregister_def rooms_of_def split: option.splits)

lemma registry_disconnect_cleanup:
  "registry (disconnect_cleanup c st) = (registry st)(c := None)"
  by (auto simp: disconnect_cleanup_def unregister_def split: option.splits)

lemma no_empty_disconnect_cleanup:
  "no_empty_room (index st) \<Longrightarrow> no_empty_room (index (disconnect_cleanup c st))"
  by (simp add: index_disconnect_cleanup no_empty_fold_leave)

lemma no_empty_after:
  "no_empty_room (index st) \<Longrightarrow> no_empty_room (index (after verify st ev))"
proof (cases ev)
  case (Connect c token)
  assume "no_empty_room (index st)"
  then have "no_empty_room (index (fold (exec_call c) calls (admit c reg st)))" for calls reg
    by (simp add: no_empty_fold_exec no_empty_admit)
  then show ?thesis using Connect \<open>no_empty_room (index st)\<close>
    by (auto simp: after_def run_handler_def split: option.splits sum.splits)
next
  case (JoinConversation c conv)
  assume "no_empty_room (index st)"
  then show ?thesis using JoinConversation
    by (auto simp: after_def run_handler_def no_empty_fold_exec split: option.splits)
next
  case (LeaveConversation c conv)
  assume "no_empty_room (index st)"
  then show ?thesis using LeaveConversation
    by (auto simp: after_def run_handler_def no_empty_fold_exec split: option.splits)
next
  case (Disconnect c)
  assume "no_empty_room (index st)"
  then show ?thesis using Disconnect
    by (auto simp: after_def run_handler_def no_empty_fold_exec no_empty_disconnect_cleanup
        split: option.splits)
qed

lemma no_empty_run:
  "no_empty_room (index st) \<Longrightarrow> no_empty_room (index (run verify st evs))"
  by (induction evs arbitrary: st) (simp_all add: no_empty_after)

lemma one_connection_run: "one_connection = run sample_verify initial [Connect ''A'' (Some ''token-U1'')]"
  by (simp add: one_connection_def)

lemma symmetric_one_connection: "symmetric one_connection"
  unfolding one_connection_run by (rule symmetric_run [OF symmetric_initial])

lemma no_empty_one_connection: "no_empty_room (index one_connection)"
  unfolding one_connection_run by (rule no_empty_run [OF no_empty_initial])

subsection \<open>C7: symmetry of registry and index\<close>

text \<open>
  The operations complete as transitions of the server: the registration of an admitted
  connection with its automatic joins, a join, a leave, and the disconnect cleanup, in
  which \<open>unregister\<close> is followed by the \<open>leave\<close> of every room it returned. A state is
  one reached from the empty state by any sequence of them.
\<close>



subsection \<open>C3: disconnect\<close>

text \<open>
  C3. From a well-formed state, the disconnect transition of connection \<open>c\<close> removes \<open>c\<close>
  from the member set of every room; every room whose members were within \<open>{c}\<close>, and so is
  left empty, has no entry in the index afterwards; the other rooms keep their remaining
  members; no entry with an empty member set remains.
\<close>

theorem disconnect_releases_memberships:
  assumes "symmetric st" and "no_empty_room (index st)"
  shows "registry (after verify st (Disconnect c)) c = None
         \<and> (\<forall>r. c \<notin> set (membersOf r (index (after verify st (Disconnect c)))))
         \<and> (\<forall>r. if set (membersOf r (index st)) \<subseteq> {c}
                 then index (after verify st (Disconnect c)) r = None
                 else set (membersOf r (index (after verify st (Disconnect c)))) = set (membersOf r (index st)) - {c})
         \<and> no_empty_room (index (after verify st (Disconnect c)))"
proof -
  let ?st' = "after verify st (Disconnect c)"
  have reg: "registry ?st' c = None"
    by (auto simp: after_def run_handler_def on_disconnect_def registry_disconnect_cleanup
        split: option.splits)
  have sym: "symmetric ?st'" using assms(1) by (rule symmetric_after)
  have ne: "no_empty_room (index ?st')" using assms(2) by (rule no_empty_after)
  have out: "c \<notin> set (membersOf r (index ?st'))" for r
    using sym reg by (simp add: symmetric_def rooms_of_def)
  have mem: "set (membersOf r (index ?st')) = set (membersOf r (index st)) - {c}" for r
  proof (cases "registry st c")
    case None
    then have "?st' = st" by (simp add: after_def)
    then show ?thesis using out [of r] by auto
  next
    case (Some entry)
    then have "index ?st' = fold (\<lambda>r. leave r c) (rooms_of c (registry st)) (index st)"
      by (simp add: after_def run_handler_def on_disconnect_def index_disconnect_cleanup)
    then show ?thesis using assms(1)
      by (auto simp: membersOf_fold_leave symmetric_def)
  qed
  have gone: "index ?st' r = None" if "set (membersOf r (index st)) \<subseteq> {c}" for r
  proof -
    from that mem [of r] have "set (membersOf r (index ?st')) = {}" by auto
    then have "membersOf r (index ?st') = []" by simp
    with ne show ?thesis
      by (auto simp: no_empty_room_def membersOf_def split: option.splits)
  qed
  show ?thesis using reg out mem gone ne by simp
qed

lemma joined_42_eq:
  "joined_42 =
     \<lparr>registry =
        [''A'' \<mapsto> \<lparr>owner = ''U1'', rooms = [''A'', ''user_U1'', ''conversation_42'']\<rparr>],
      index = [''A'' \<mapsto> [''A''], ''user_U1'' \<mapsto> [''A''], ''conversation_42'' \<mapsto> [''A'']]\<rparr>"
  by (simp add: joined_42_def after_def sample_verify_def register_def initial_def
      run_handler_def on_connection_def on_joinConversation_def admit_def socket_join_def
      join_def set_add_def)

theorem disconnect_releases_memberships_witness:
  "symmetric joined_42
   \<and> no_empty_room (index joined_42)
   \<and> membersOf ''conversation_42'' (index joined_42) = [''A'']
   \<and> registry (after sample_verify joined_42 (Disconnect ''A'')) ''A'' = None
   \<and> index (after sample_verify joined_42 (Disconnect ''A'')) ''conversation_42'' = None
   \<and> index (after sample_verify joined_42 (Disconnect ''A'')) ''user_U1'' = None
   \<and> index (after sample_verify joined_42 (Disconnect ''A'')) ''A'' = None"
proof -
  have s: "symmetric joined_42"
    unfolding joined_42_def by (rule symmetric_run [OF symmetric_initial])
  have n: "no_empty_room (index joined_42)"
    unfolding joined_42_def by (rule no_empty_run [OF no_empty_initial])
  have m: "membersOf ''conversation_42'' (index joined_42) = [''A'']"
    "membersOf ''user_U1'' (index joined_42) = [''A'']"
    "membersOf ''A'' (index joined_42) = [''A'']"
    by (simp_all add: joined_42_eq membersOf_def)
  note t = disconnect_releases_memberships [OF s n, of sample_verify "''A''"]
  from t have "registry (after sample_verify joined_42 (Disconnect ''A'')) ''A'' = None"
    by blast
  moreover from t have
    "if set (membersOf r (index joined_42)) \<subseteq> {''A''}
     then index (after sample_verify joined_42 (Disconnect ''A'')) r = None
     else set (membersOf r (index (after sample_verify joined_42 (Disconnect ''A'')))) =
          set (membersOf r (index joined_42)) - {''A''}" for r
    by blast
  from this [of "''conversation_42''"] this [of "''user_U1''"] this [of "''A''"] m
  have "index (after sample_verify joined_42 (Disconnect ''A'')) ''conversation_42'' = None"
    "index (after sample_verify joined_42 (Disconnect ''A'')) ''user_U1'' = None"
    "index (after sample_verify joined_42 (Disconnect ''A'')) ''A'' = None"
    by simp_all
  ultimately show ?thesis using s n m by simp
qed

subsection \<open>C4: failed authentication\<close>

lemma registry_socket_join:
  "registry (socket_join r c' st) c = None \<longleftrightarrow> registry st c = None"
  by (simp add: socket_join_def split: option.splits)

lemma registry_socket_leave:
  "registry (socket_leave r c' st) c = None \<longleftrightarrow> registry st c = None"
  by (simp add: socket_leave_def split: option.splits)

lemma registry_exec_call:
  "registry (exec_call c' call st) c = None \<longleftrightarrow> registry st c = None"
  by (cases call) (simp_all add: registry_socket_join registry_socket_leave)

lemma registry_fold_exec:
  "registry (fold (exec_call c') calls st) c = None \<longleftrightarrow> registry st c = None"
  by (induction calls arbitrary: st) (simp_all add: registry_exec_call)

lemma unregistered_after:
  assumes "registry st c = None"
    and "\<And>token. ev = Connect c token \<Longrightarrow> verify token = None"
  shows "registry (after verify st ev) c = None"
proof (cases ev)
  case (Connect c' token)
  show ?thesis
  proof (cases "verify token")
    case None
    with Connect assms(1) show ?thesis by (simp add: after_def)
  next
    case (Some uid)
    with Connect assms(2) have "c' \<noteq> c" by auto
    with Connect Some assms(1) show ?thesis
      by (auto simp: after_def run_handler_def register_def registry_fold_exec admit_def
          registry_socket_join split: option.splits)
  qed
next
  case (JoinConversation c' conv)
  with assms(1) show ?thesis
    by (auto simp: after_def run_handler_def registry_fold_exec split: option.splits)
next
  case (LeaveConversation c' conv)
  with assms(1) show ?thesis
    by (auto simp: after_def run_handler_def registry_fold_exec split: option.splits)
next
  case (Disconnect c')
  with assms(1) show ?thesis
    by (auto simp: after_def run_handler_def registry_fold_exec registry_disconnect_cleanup
        split: option.splits)
qed

lemma unregistered_issued:
  assumes "registry st c = None"
    and "\<And>token. ev = Connect c token \<Longrightarrow> verify token = None"
  shows "(c, call) \<notin> set (issued verify st ev)"
proof (cases ev)
  case (Connect c' token)
  show ?thesis
  proof (cases "verify token")
    case None
    with Connect show ?thesis by (simp add: issued_def)
  next
    case (Some uid)
    with Connect assms(2) have "c' \<noteq> c" by auto
    with Connect Some show ?thesis
      by (auto simp: issued_def run_handler_def split: option.splits sum.splits)
  qed
next
  case (JoinConversation c' conv)
  with assms(1) show ?thesis
    by (auto simp: issued_def run_handler_def split: option.splits)
next
  case (LeaveConversation c' conv)
  with assms(1) show ?thesis
    by (auto simp: issued_def run_handler_def split: option.splits)
next
  case (Disconnect c')
  with assms(1) show ?thesis
    by (auto simp: issued_def run_handler_def split: option.splits)
qed

lemma unregistered_run:
  assumes "registry st c = None"
    and "\<forall>token. Connect c token \<in> set evs \<longrightarrow> verify token = None"
  shows "registry (run verify st evs) c = None \<and> (c, call) \<notin> set (journal verify st evs)"
  using assms
proof (induction evs arbitrary: st)
  case Nil
  then show ?case by simp
next
  case (Cons ev evs)
  have here: "\<And>token. ev = Connect c token \<Longrightarrow> verify token = None"
    using Cons.prems(2) by simp
  have "registry (after verify st ev) c = None"
    using Cons.prems(1) here by (rule unregistered_after)
  moreover have "\<forall>token. Connect c token \<in> set evs \<longrightarrow> verify token = None"
    using Cons.prems(2) by simp
  ultimately have "registry (run verify (after verify st ev) evs) c = None
      \<and> (c, call) \<notin> set (journal verify (after verify st ev) evs)"
    by (rule Cons.IH)
  moreover have "(c, call) \<notin> set (issued verify st ev)"
    using Cons.prems(1) here by (rule unregistered_issued)
  ultimately show ?case by simp
qed

text \<open>
  C4. Take any sequence of events, from the empty state, in which every connection attempt
  of \<open>c\<close> fails authentication. At its end (so at any point of an execution) \<open>c\<close> is not in
  the registry, is a member of no room, and no join or leave was ever issued on its
  behalf: in particular no personal-room join.
\<close>

theorem failed_authentication_never_admitted:
  assumes "\<forall>token. Connect c token \<in> set evs \<longrightarrow> verify token = None"
  shows "registry (run verify initial evs) c = None
         \<and> (\<forall>r. c \<notin> set (membersOf r (index (run verify initial evs))))
         \<and> (\<forall>call. (c, call) \<notin> set (journal verify initial evs))"
proof -
  have init: "registry initial c = None" by (simp add: initial_def)
  have reg: "registry (run verify initial evs) c = None"
    using unregistered_run [OF init assms] by simp
  have "symmetric (run verify initial evs)"
    by (rule symmetric_run [OF symmetric_initial])
  with reg have "c \<notin> set (membersOf r (index (run verify initial evs)))" for r
    by (simp add: symmetric_def rooms_of_def)
  moreover have "(c, call) \<notin> set (journal verify initial evs)" for call
    using unregistered_run [OF init assms] by simp
  ultimately show ?thesis using reg by simp
qed

theorem failed_authentication_never_admitted_witness:
  "sample_verify (Some ''forged'') = None
   \<and> sample_verify None = None
   \<and> registry (run sample_verify initial refused_attempt) ''B'' = None
   \<and> (\<forall>r. ''B'' \<notin> set (membersOf r (index (run sample_verify initial refused_attempt))))
   \<and> (\<forall>call. (''B'', call) \<notin> set (journal sample_verify initial refused_attempt))
   \<and> journal sample_verify initial refused_attempt =
       [(''A'', SocketJoin ''user_U1''), (''A'', SocketJoin ''conversation_c7'')]"
proof -
  have v: "sample_verify (Some ''forged'') = None" "sample_verify None = None"
    by (simp_all add: sample_verify_def)
  then have "\<forall>token. Connect ''B'' token \<in> set refused_attempt \<longrightarrow> sample_verify token = None"
    by (auto simp: refused_attempt_def)
  moreover have "journal sample_verify initial refused_attempt =
       [(''A'', SocketJoin ''user_U1''), (''A'', SocketJoin ''conversation_c7'')]"
    by (simp add: refused_attempt_def issued_def after_def sample_verify_def register_def
        initial_def run_handler_def on_connection_def on_joinConversation_def admit_def
        socket_join_def join_def set_add_def)
  ultimately show ?thesis
    using failed_authentication_never_admitted [of "''B''" refused_attempt sample_verify] v
    by simp
qed

subsection \<open>C5: dispatch\<close>

lemma dispatch_two_rooms:
  "dispatch ''conversation_c7'' ''chat.message'' ''hi'' two_rooms =
     [(''A'', ''chat.message'', ''hi''), (''B'', ''chat.message'', ''hi'')]
   \<and> dispatch ''conversation_c8'' ''chat.message'' ''hi'' two_rooms =
     [(''B'', ''chat.message'', ''hi''), (''C'', ''chat.message'', ''hi'')]
   \<and> dispatch ''conversation_c9'' ''chat.message'' ''hi'' two_rooms = []"
  by (simp add: dispatch_def membersOf_def two_rooms_def)

text \<open>
  C5. For every room, event kind and payload, the deliveries of \<open>dispatch\<close> are exactly
  one \<open>(kind, payload)\<close> per current member of the room: the recipients are the member
  set, nothing else is delivered, and a room with no entry or with an empty member set
  gets no delivery. The function is total: there is no failing case.
\<close>

theorem dispatch_exactly_members:
  "set (dispatch r kind payload idx) = (\<lambda>c. (c, kind, payload)) ` set (membersOf r idx)
   \<and> fst ` set (dispatch r kind payload idx) = set (membersOf r idx)
   \<and> snd ` set (dispatch r kind payload idx) \<subseteq> {(kind, payload)}
   \<and> length (dispatch r kind payload idx) = length (membersOf r idx)
   \<and> dispatch r kind payload (idx(r := None)) = []
   \<and> dispatch r kind payload (idx(r \<mapsto> [])) = []"
  by (auto simp: dispatch_def membersOf_def image_iff split: option.splits)

subsection \<open>C6: idempotence of join and leave\<close>

lemma set_add_idem: "set_add x (set_add x xs) = set_add x xs"
  by (simp add: set_add_def)

lemma join_idem: "join r c (join r c idx) = join r c idx"
  by (simp add: join_def set_add_def split: option.splits)

lemma join_repeat: "(join r c ^^ Suc n) idx = join r c idx"
  by (induction n) (simp_all add: join_idem)

lemma leave_idem: "leave r c (leave r c idx) = leave r c idx"
  by (auto simp: leave_def Let_def set_delete_def split: option.splits)

lemma leave_absent:
  assumes "no_empty_room idx" and "c \<notin> set (membersOf r idx)"
  shows "leave r c idx = idx"
proof (cases "idx r")
  case None
  then show ?thesis by (simp add: leave_def)
next
  case (Some members)
  with assms have "members \<noteq> []" and "set_delete c members = members"
    by (auto simp: no_empty_room_def membersOf_def set_delete_def)
  with Some show ?thesis by (simp add: leave_def Let_def map_upd_triv)
qed

lemma socket_join_idem: "socket_join r c (socket_join r c st) = socket_join r c st"
  by (simp add: socket_join_def join_idem set_add_idem split: option.splits)

lemma socket_join_repeat: "(socket_join r c ^^ Suc n) st = socket_join r c st"
  by (induction n) (simp_all add: socket_join_idem)

lemma socket_leave_absent:
  assumes "symmetric st" and "no_empty_room (index st)"
    and "c \<notin> set (membersOf r (index st))"
  shows "socket_leave r c st = st"
proof (cases "registry st c")
  case None
  then show ?thesis by (simp add: socket_leave_def)
next
  case (Some entry)
  from assms(1,3) Some have "r \<notin> set (rooms entry)"
    by (simp add: symmetric_def rooms_of_def)
  then have "entry\<lparr>rooms := set_delete r (rooms entry)\<rparr> = entry"
    by (simp add: set_delete_def)
  moreover have "leave r c (index st) = index st"
    using assms(2,3) by (rule leave_absent)
  ultimately show ?thesis using Some
    by (simp add: socket_leave_def map_upd_triv)
qed

text \<open>
  C6. On every index, \<open>join\<close> performed \<open>n + 1\<close> times is \<open>join\<close> performed once (also for the
  join of a live socket, on every server state), and \<open>leave\<close> performed twice is \<open>leave\<close>
  performed once; \<open>leave\<close> of an absent connection changes the member set of no room, and
  on an index without empty rooms it changes nothing at all. The \<open>leaveConversation\<close> handler calls leave unconditionally; the request never
  fails, and for a room the connection is not in it leaves a well-formed state unchanged.
\<close>

theorem join_leave_idempotent:
  "(join r c ^^ Suc n) idx = join r c idx
   \<and> (socket_join r c ^^ Suc n) st = socket_join r c st
   \<and> leave r c (leave r c idx) = leave r c idx
   \<and> (c \<notin> set (membersOf r idx) \<longrightarrow> membersOf r' (leave r c idx) = membersOf r' idx)
   \<and> (no_empty_room idx \<and> c \<notin> set (membersOf r idx) \<longrightarrow> leave r c idx = idx)
   \<and> on_leaveConversation conversationId = [SocketLeave (''conversation_'' @ conversationId)]
   \<and> (\<exists>calls st'. step verify st (LeaveConversation c conversationId) = Inr (calls, st'))
   \<and> (symmetric st \<and> no_empty_room (index st)
        \<and> c \<notin> set (membersOf (''conversation_'' @ conversationId) (index st))
       \<longrightarrow> after verify st (LeaveConversation c conversationId) = st)"
proof -
  have "after verify st (LeaveConversation c conversationId) = st"
    if "symmetric st" "no_empty_room (index st)"
      "c \<notin> set (membersOf (''conversation_'' @ conversationId) (index st))"
    using socket_leave_absent [OF that]
    by (simp add: after_def run_handler_def on_leaveConversation_def split: option.splits)
  moreover have "\<exists>calls st'. step verify st (LeaveConversation c conversationId) = Inr (calls, st')"
    by (simp add: run_handler_def split: option.splits)
  moreover have "membersOf r' (leave r c idx) = membersOf r' idx"
    if "c \<notin> set (membersOf r idx)"
    using that by (simp add: membersOf_leave set_delete_def)
  ultimately show ?thesis
    using join_repeat socket_join_repeat leave_idem leave_absent
    by (simp add: on_leaveConversation_def)
qed

theorem join_leave_idempotent_witness:
  "no_empty_room (index one_connection)
   \<and> symmetric one_connection
   \<and> ''A'' \<notin> set (membersOf ''conversation_c7'' (index one_connection))
   \<and> (join ''conversation_c7'' ''A'' ^^ 3) (index one_connection)
       = join ''conversation_c7'' ''A'' (index one_connection)
   \<and> leave ''conversation_c7'' ''A'' (index one_connection) = index one_connection
   \<and> step sample_verify one_connection (LeaveConversation ''A'' ''c7'') = Inr ([(''A'', SocketLeave ''conversation_c7'')], one_connection)
   \<and> after sample_verify one_connection (LeaveConversation ''A'' ''c7'') = one_connection"
proof -
  have a: "''A'' \<notin> set (membersOf ''conversation_c7'' (index one_connection))"
    by (simp add: one_connection_eq membersOf_def)
  note t = join_leave_idempotent [where r = "''conversation_c7''" and c = "''A''" and n = 2
      and idx = "index one_connection" and st = one_connection and conversationId = "''c7''"
      and verify = sample_verify]
  from t have "(join ''conversation_c7'' ''A'' ^^ 3) (index one_connection)
       = join ''conversation_c7'' ''A'' (index one_connection)"
    by (simp add: numeral_3_eq_3)
  moreover from t a no_empty_one_connection
  have "leave ''conversation_c7'' ''A'' (index one_connection) = index one_connection"
    by blast
  moreover from t a no_empty_one_connection symmetric_one_connection
  have e: "after sample_verify one_connection (LeaveConversation ''A'' ''c7'') = one_connection"
    by simp
  moreover have "step sample_verify one_connection (LeaveConversation ''A'' ''c7'')
      = Inr ([(''A'', SocketLeave ''conversation_c7'')], one_connection)"
    using e by (simp add: after_def one_connection_eq run_handler_def on_leaveConversation_def)
  ultimately show ?thesis
    using a no_empty_one_connection symmetric_one_connection by simp
qed

subsection \<open>C1: joining a conversation room\<close>

text \<open>
  C1, as stated, fails: the handler makes no participancy check. User \<open>U1\<close> is not a
  participant of conversation \<open>c7\<close>, and conversation \<open>c9\<close> is not in the store; the
  requests of connection \<open>A\<close> of \<open>U1\<close> are admitted all the same and change the membership.
\<close>

theorem joinConversation_participancy_counterexample:
  "lookup ''A'' (registry one_connection) = Some ''U1''
   \<and> \<not> is_participant sample_store ''U1'' ''c7''
   \<and> \<not> is_participant sample_store ''U1'' ''c9''
   \<and> issued sample_verify one_connection (JoinConversation ''A'' ''c7'')
       = [(''A'', SocketJoin ''conversation_c7'')]
   \<and> membersOf ''conversation_c7'' (index one_connection) = []
   \<and> membersOf ''conversation_c7''
        (index (after sample_verify one_connection (JoinConversation ''A'' ''c7''))) = [''A'']
   \<and> membersOf ''conversation_c9''
        (index (after sample_verify one_connection (JoinConversation ''A'' ''c9''))) = [''A'']"
  by (simp add: one_connection_eq lookup_def is_participant_def sample_store_def issued_def
      after_def run_handler_def on_joinConversation_def socket_join_def join_def membersOf_def
      set_add_def)

text \<open>
  C1, amended. For every \<open>joinConversation(conversationId)\<close> request of an admitted
  connection, the handler consults no data store: it issues exactly one join, of the room
  \<open>"conversation_" + conversationId\<close>, whoever the user is; the connection is a member of
  that room afterwards, and no error is surfaced.
\<close>

theorem joinConversation_unconditional:
  assumes "registry st c = Some entry"
  shows "on_joinConversation conversationId = [SocketJoin (''conversation_'' @ conversationId)]
         \<and> step verify st (JoinConversation c conversationId) =
             Inr ([(c, SocketJoin (''conversation_'' @ conversationId))],
                  socket_join (''conversation_'' @ conversationId) c st)
         \<and> c \<in> set (membersOf (''conversation_'' @ conversationId)
                  (index (after verify st (JoinConversation c conversationId))))
         \<and> (''conversation_'' @ conversationId)
             \<in> set (rooms_of c (registry (after verify st (JoinConversation c conversationId))))"
  using assms
  by (simp add: on_joinConversation_def run_handler_def after_def socket_join_def
      membersOf_join rooms_of_upd)

theorem joinConversation_unconditional_witness:
  "registry one_connection ''A'' = Some \<lparr>owner = ''U1'', rooms = [''A'', ''user_U1'']\<rparr>
   \<and> \<not> is_participant sample_store ''U1'' ''c7''
   \<and> step sample_verify one_connection (JoinConversation ''A'' ''c7'') =
       Inr ([(''A'', SocketJoin ''conversation_c7'')],
            socket_join ''conversation_c7'' ''A'' one_connection)
   \<and> ''A'' \<in> set (membersOf ''conversation_c7''
          (index (after sample_verify one_connection (JoinConversation ''A'' ''c7''))))"
proof -
  have r: "registry one_connection ''A'' = Some \<lparr>owner = ''U1'', rooms = [''A'', ''user_U1'']\<rparr>"
    by (simp add: one_connection_eq)
  have "\<not> is_participant sample_store ''U1'' ''c7''"
    by (simp add: is_participant_def sample_store_def)
  with joinConversation_unconditional [OF r, where conversationId = "''c7''" and verify = sample_verify] r
  show ?thesis by (simp add: on_joinConversation_def)
qed

subsection \<open>C2: the personal room\<close>

text \<open>
  C2, as stated, fails twice. The automatic join of the callback is into
  \<open>"user_" + userId\<close> (an underscore), not \<open>"user:" + userId\<close>: after user \<open>U2\<close> connects on
  connection \<open>B\<close>, room \<open>user:U2\<close> has no member. And it is not the only automatic join at
  registration time: the transport has joined \<open>B\<close> to the room of its own identifier, so
  the connection is in two rooms before any request of the client.
\<close>

theorem personal_room_name_counterexample:
  "sample_verify (Some ''token-U2'') = Some ''U2''
   \<and> registry one_connection ''B'' = None
   \<and> issued sample_verify one_connection (Connect ''B'' (Some ''token-U2''))
       = [(''B'', SocketJoin ''user_U2'')]
   \<and> issued sample_verify one_connection (Connect ''B'' (Some ''token-U2''))
       \<noteq> [(''B'', SocketJoin ''user:U2'')]
   \<and> membersOf ''user:U2''
        (index (after sample_verify one_connection (Connect ''B'' (Some ''token-U2'')))) = []
   \<and> rooms_of ''B''
        (registry (after sample_verify one_connection (Connect ''B'' (Some ''token-U2''))))
       = [''B'', ''user_U2'']
   \<and> rooms_of ''B''
        (registry (after sample_verify one_connection (Connect ''B'' (Some ''token-U2''))))
       \<noteq> [''user:U2'']"
  by (simp add: one_connection_eq sample_verify_def issued_def after_def register_def
      run_handler_def on_connection_def admit_def socket_join_def join_def membersOf_def
      rooms_of_def set_add_def)

text \<open>
  C2, amended. For a connection attempt that the verifier resolves to \<open>userId\<close>, on a
  connection identifier not yet registered: the \<open>connection\<close> callback issues exactly one
  join, into the room \<open>"user_" + userId\<close>; the only other automatic join at registration
  time is the transport's, into the room named by the connection identifier, so that
  afterwards the rooms of the connection are exactly these two (one, should the two names
  coincide) and the connection is a member of both. Before the connection is admitted its
  join and leave requests are not processed.
\<close>

theorem personal_room_auto_join:
  assumes "verify token = Some uid" and "registry st c = None"
  shows "on_connection uid = [SocketJoin (''user_'' @ uid)]
         \<and> step verify st (JoinConversation c conversationId) = Inr ([], st)
         \<and> step verify st (LeaveConversation c conversationId) = Inr ([], st)
         \<and> issued verify st (Connect c token) = [(c, SocketJoin (''user_'' @ uid))]
         \<and> lookup c (registry (after verify st (Connect c token))) = Some uid
         \<and> rooms_of c (registry (after verify st (Connect c token)))
             = (if ''user_'' @ uid = c then [c] else [c, ''user_'' @ uid])
         \<and> c \<in> set (membersOf (''user_'' @ uid) (index (after verify st (Connect c token))))
         \<and> c \<in> set (membersOf c (index (after verify st (Connect c token))))"
  using assms
  by (simp add: on_connection_def issued_def after_def register_def run_handler_def admit_def
      socket_join_def lookup_def rooms_of_def membersOf_join set_add_def)

theorem personal_room_auto_join_witness:
  "sample_verify (Some ''token-U2'') = Some ''U2''
   \<and> registry one_connection ''B'' = None
   \<and> issued sample_verify one_connection (Connect ''B'' (Some ''token-U2''))
       = [(''B'', SocketJoin ''user_U2'')]
   \<and> rooms_of ''B''
        (registry (after sample_verify one_connection (Connect ''B'' (Some ''token-U2''))))
       = [''B'', ''user_U2'']
   \<and> ''B'' \<in> set (membersOf ''user_U2''
        (index (after sample_verify one_connection (Connect ''B'' (Some ''token-U2'')))))
   \<and> ''B'' \<in> set (membersOf ''B''
        (index (after sample_verify one_connection (Connect ''B'' (Some ''token-U2'')))))"
proof -
  have v: "sample_verify (Some ''token-U2'') = Some ''U2''"
    by (simp add: sample_verify_def)
  have r: "registry one_connection ''B'' = None"
    by (simp add: one_connection_eq)
  from personal_room_auto_join [where verify = sample_verify and token = "Some ''token-U2''"
      and uid = "''U2''" and st = one_connection and c = "''B''", OF v r] v r
  show ?thesis by simp
qed

end
